theory Spec2Isabelle
  imports Main "HOL-Library.Word"
begin

section \<open>Strings and thrown values\<close>

text \<open>
  A JavaScript string is a sequence of UTF-16 code units. The regular expression of the
  route has no \<open>u\<close> flag and \<open>JSON.parse\<close> decodes \<open>\uXXXX\<close> to single code
  units, so both work on code units; a string is a list of 16-bit words. \<open>js\<close> embeds an
  ASCII literal.
\<close>

type_synonym cu = "16 word"
type_synonym jstring = "cu list"

definition js :: "string \<Rightarrow> jstring" where
  "js s = map of_char s"

text \<open>\<open>String.prototype.includes\<close>: the needle occurs as a contiguous run.\<close>

fun starts_with :: "jstring \<Rightarrow> jstring \<Rightarrow> bool" where
  "starts_with [] s = True"
| "starts_with (p # ps) [] = False"
| "starts_with (p # ps) (c # s) = (p = c \<and> starts_with ps s)"

fun str_includes :: "jstring \<Rightarrow> jstring \<Rightarrow> bool" where
  "str_includes needle [] = (needle = [])"
| "str_includes needle (c # s) = (starts_with needle (c # s) \<or> str_includes needle s)"

text \<open>
  What a \<open>catch\<close> clause receives: an instance of \<open>Error\<close> with its message (a
  string, so that the \<open>?.\<close> of line 33 always reaches \<open>includes\<close>), or any other thrown
  value. A promise settles as resolved or rejected.
\<close>

datatype thrown = Error jstring | NonError

datatype 'a outcome = Resolved 'a | Rejected thrown

section \<open>retryWithBackoff (route.ts, lines 23-42)\<close>

text \<open>
  The test of line 33 after \<open>retries >= maxRetries\<close>:
  \<open>error instanceof Error && error.message?.includes('429')\<close>.
\<close>

fun rate_limited :: "thrown \<Rightarrow> bool" where
  "rate_limited (Error msg) = str_includes (js ''429'') msg"
| "rate_limited NonError = False"

text \<open>
  \<open>fn\<close> is an effectful operation: it reads the state of the world and returns its
  outcome with the new state. The loop returns the outcome it settles with, the state
  after the last invocation, and the delays (in milliseconds) it has passed to
  \<open>wait\<close>, oldest first (the \<open>console.log\<close> of line 37 prints the same delay before
  each wait). \<open>maxRetries\<close> and \<open>initialDelay\<close> are JavaScript numbers, taken here at
  integer values.
\<close>

function retry_loop ::
  "('s \<Rightarrow> 'a outcome \<times> 's) \<Rightarrow> int \<Rightarrow> int \<Rightarrow> nat \<Rightarrow> int list \<Rightarrow> 's
     \<Rightarrow> 'a outcome \<times> 's \<times> int list" where
  "retry_loop fn maxRetries initialDelay retries waited s =
     (case fn s of
        (Resolved v, s') \<Rightarrow> (Resolved v, s', waited)
      | (Rejected err, s') \<Rightarrow>
          if int retries \<ge> maxRetries \<or> \<not> rate_limited err
          then (Rejected err, s', waited)
          else retry_loop fn maxRetries initialDelay (Suc retries)
                 (waited @ [initialDelay * 2 ^ retries]) s')"
  by pat_completeness auto
termination
  by (relation "measure (\<lambda>(fn, maxRetries, initialDelay, retries, waited, s).
                   nat (maxRetries - int retries))") auto

definition retryWithBackoff ::
  "('s \<Rightarrow> 'a outcome \<times> 's) \<Rightarrow> int \<Rightarrow> int \<Rightarrow> 's \<Rightarrow> 'a outcome \<times> 's \<times> int list" where
  "retryWithBackoff fn maxRetries initialDelay s =
     retry_loop fn maxRetries initialDelay 0 [] s"

text \<open>The defaults of the signature: \<open>maxRetries = 3\<close>, \<open>initialDelay = 1000\<close>.\<close>

definition retryWithBackoff_default ::
  "('s \<Rightarrow> 'a outcome \<times> 's) \<Rightarrow> 's \<Rightarrow> 'a outcome \<times> 's \<times> int list" where
  "retryWithBackoff_default fn s = retryWithBackoff fn 3 1000 s"

text \<open>
  Counting the invocations: \<open>counting fn\<close> behaves as \<open>fn\<close> and counts its invocations
  in a first component of the state. \<open>state_after fn k s\<close> is the state that \<open>k\<close>
  invocations of \<open>fn\<close> in a row leave behind.
\<close>

definition counting :: "('s \<Rightarrow> 'a outcome \<times> 's) \<Rightarrow> nat \<times> 's \<Rightarrow> 'a outcome \<times> (nat \<times> 's)" where
  "counting fn = (\<lambda>(n, s). case fn s of (r, s') \<Rightarrow> (r, (Suc n, s')))"

fun state_after :: "('s \<Rightarrow> 'a outcome \<times> 's) \<Rightarrow> nat \<Rightarrow> 's \<Rightarrow> 's" where
  "state_after fn 0 s = s"
| "state_after fn (Suc k) s = state_after fn k (snd (fn s))"

definition always_rate_limited :: "('s \<Rightarrow> 'a outcome \<times> 's) \<Rightarrow> bool" where
  "always_rate_limited fn = (\<forall>s. \<exists>err. fst (fn s) = Rejected err \<and> rate_limited err)"

text \<open>An operation that answers every invocation with the same rate-limit failure.\<close>

definition op_429 :: "unit \<Rightarrow> unit outcome \<times> unit" where
  "op_429 u = (Rejected (Error (js ''[429 Too Many Requests]'')), ())"

text \<open>An operation that fails with a server error, not a rate limit.\<close>

definition op_500 :: "unit \<Rightarrow> unit outcome \<times> unit" where
  "op_500 u = (Rejected (Error (js ''[500 Internal Server Error]'')), ())"

definition invocations :: "'a outcome \<times> (nat \<times> 's) \<times> int list \<Rightarrow> nat" where
  "invocations r = fst (fst (snd r))"

section \<open>The pattern search of line 136\<close>

text \<open>
  \<open>text.match(/\[\s*\{[\s\S]*\}\s*\]/)\<close>. The pattern is a sequence of atoms, each a
  character class taken once or under a greedy star. \<open>is_space\<close> is the class \<open>\s\<close> of
  ECMAScript (white space and line terminators).
\<close>

definition is_space :: "cu \<Rightarrow> bool" where
  "is_space c =
     (c = 0x09 \<or> c = 0x0A \<or> c = 0x0B \<or> c = 0x0C \<or> c = 0x0D \<or> c = 0x20 \<or> c = 0xA0
      \<or> c = 0x1680 \<or> (0x2000 \<le> c \<and> c \<le> 0x200A) \<or> c = 0x2028 \<or> c = 0x2029
      \<or> c = 0x202F \<or> c = 0x205F \<or> c = 0x3000 \<or> c = 0xFEFF)"

datatype atom = One "cu \<Rightarrow> bool" | Star "cu \<Rightarrow> bool"

definition json_array_pattern :: "atom list" where
  "json_array_pattern =
     [One (\<lambda>c. c = 0x5B), Star is_space, One (\<lambda>c. c = 0x7B),
      Star (\<lambda>c. is_space c \<or> \<not> is_space c),
      One (\<lambda>c. c = 0x7D), Star is_space, One (\<lambda>c. c = 0x5D)]"

text \<open>The pattern from its closing brace on, and from the star over any code unit on.\<close>

definition tail_pattern :: "atom list" where
  "tail_pattern = [One (\<lambda>c. c = 0x7D), Star is_space, One (\<lambda>c. c = 0x5D)]"

definition mid_pattern :: "atom list" where
  "mid_pattern = Star (\<lambda>c. is_space c \<or> \<not> is_space c) # tail_pattern"

text \<open>
  The backtracking matcher at a fixed start: a star first tries one more repetition and
  falls back to the rest of the pattern when that fails. The result is the number of
  code units matched.
\<close>

fun match_here :: "atom list \<Rightarrow> jstring \<Rightarrow> nat option" where
  "match_here [] s = Some 0"
| "match_here (One p # r) [] = None"
| "match_here (One p # r) (c # s) =
     (if p c then map_option Suc (match_here r s) else None)"
| "match_here (Star p # r) [] = match_here r []"
| "match_here (Star p # r) (c # s) =
     (if p c
      then (case match_here (Star p # r) s of
              Some n \<Rightarrow> Some (Suc n)
            | None \<Rightarrow> match_here r (c # s))
      else match_here r (c # s))"

text \<open>
  \<open>String.prototype.match\<close> with a pattern without the \<open>g\<close> flag: the start positions are
  tried from the left; the result is the matched substring (\<open>jsonMatch[0]\<close>) or \<open>null\<close>.
\<close>

fun str_match :: "atom list \<Rightarrow> jstring \<Rightarrow> jstring option" where
  "str_match r [] = map_option (\<lambda>n. []) (match_here r [])"
| "str_match r (c # s) =
     (case match_here r (c # s) of
        Some n \<Rightarrow> Some (take n (c # s))
      | None \<Rightarrow> str_match r s)"

text \<open>
  The strings a pattern denotes, independently of the search order: the reading of
  "a substring matching the pattern" in the claims.
\<close>

fun lang :: "atom list \<Rightarrow> jstring \<Rightarrow> bool" where
  "lang [] w = (w = [])"
| "lang (One p # r) [] = False"
| "lang (One p # r) (c # w) = (p c \<and> lang r w)"
| "lang (Star p # r) [] = lang r []"
| "lang (Star p # r) (c # w) = (lang r (c # w) \<or> (p c \<and> lang (Star p # r) w))"

text \<open>The pattern has an occurrence of \<open>n\<close> code units at position \<open>i\<close> of the text.\<close>

definition occurs_at :: "atom list \<Rightarrow> jstring \<Rightarrow> nat \<Rightarrow> nat \<Rightarrow> bool" where
  "occurs_at r text i n = (i + n \<le> length text \<and> lang r (take n (drop i text)))"

section \<open>JSON values, JSON.parse and JSON.stringify\<close>

text \<open>
  A number keeps the text of its literal: the conversion to a double is not modelled.
  An object is the list of its properties in the order of their creation.
\<close>

datatype json =
    JNull
  | JBool bool
  | JNum jstring
  | JStr jstring
  | JArr "json list"
  | JObj "(jstring \<times> json) list"

text \<open>Setting a property: an existing key keeps its place and takes the new value.\<close>

fun set_prop :: "'k \<Rightarrow> 'v \<Rightarrow> ('k \<times> 'v) list \<Rightarrow> ('k \<times> 'v) list" where
  "set_prop k v [] = [(k, v)]"
| "set_prop k v (p # ps) = (if fst p = k then (k, v) # ps else p # set_prop k v ps)"

subsection \<open>JSON.parse: tokens\<close>

datatype token =
    LBracket | RBracket | LBrace | RBrace | Comma | Colon
  | TStr jstring | TNum jstring | TTrue | TFalse | TNull

definition json_ws :: "cu \<Rightarrow> bool" where
  "json_ws c = (c = 0x09 \<or> c = 0x0A \<or> c = 0x0D \<or> c = 0x20)"

definition is_digit :: "cu \<Rightarrow> bool" where
  "is_digit c = (0x30 \<le> c \<and> c \<le> 0x39)"

definition hex_val :: "cu \<Rightarrow> cu option" where
  "hex_val c =
     (if 0x30 \<le> c \<and> c \<le> 0x39 then Some (c - 0x30)
      else if 0x41 \<le> c \<and> c \<le> 0x46 then Some (c - 0x37)
      else if 0x61 \<le> c \<and> c \<le> 0x66 then Some (c - 0x57)
      else None)"

definition hex4 :: "jstring \<Rightarrow> cu option" where
  "hex4 ds =
     (case map hex_val ds of
        [Some a, Some b, Some c, Some d] \<Rightarrow> Some (((a * 16 + b) * 16 + c) * 16 + d)
      | _ \<Rightarrow> None)"

text \<open>The character after a backslash, other than \<open>u\<close>.\<close>

definition unescape :: "cu \<Rightarrow> cu option" where
  "unescape e =
     (if e = 0x22 then Some 0x22
      else if e = 0x5C then Some 0x5C
      else if e = 0x2F then Some 0x2F
      else if e = 0x62 then Some 0x08
      else if e = 0x66 then Some 0x0C
      else if e = 0x6E then Some 0x0A
      else if e = 0x72 then Some 0x0D
      else if e = 0x74 then Some 0x09
      else None)"

text \<open>
  The body of a string literal, after the opening quote: the decoded string and the
  number of code units read, the closing quote included.
\<close>

fun lex_string :: "jstring \<Rightarrow> (jstring \<times> nat) option" where
  "lex_string [] = None"
| "lex_string (c # s) =
     (if c = 0x22 then Some ([], 1)
      else if c < 0x20 then None
      else if c \<noteq> 0x5C then map_option (\<lambda>(str, n). (c # str, n + 1)) (lex_string s)
      else (case s of
              [] \<Rightarrow> None
            | e # s' \<Rightarrow>
                if e = 0x75
                then (case hex4 (take 4 s') of
                        None \<Rightarrow> None
                      | Some u \<Rightarrow>
                          map_option (\<lambda>(str, n). (u # str, n + 6)) (lex_string (drop 4 s')))
                else (case unescape e of
                        None \<Rightarrow> None
                      | Some ch \<Rightarrow>
                          map_option (\<lambda>(str, n). (ch # str, n + 2)) (lex_string s'))))"

text \<open>A number literal: \<open>-? (0 | [1-9][0-9]*) (. [0-9]+)? ([eE] [+-]? [0-9]+)?\<close>.\<close>

definition int_part :: "jstring \<Rightarrow> jstring option" where
  "int_part s =
     (case s of
        [] \<Rightarrow> None
      | d # t \<Rightarrow>
          if d = 0x30 then Some [d]
          else if is_digit d then Some (d # takeWhile is_digit t)
          else None)"

definition frac_part :: "jstring \<Rightarrow> jstring option" where
  "frac_part s =
     (case s of
        [] \<Rightarrow> Some []
      | d # t \<Rightarrow>
          if d = 0x2E
          then (if takeWhile is_digit t = [] then None else Some (d # takeWhile is_digit t))
          else Some [])"

definition exp_part :: "jstring \<Rightarrow> jstring option" where
  "exp_part s =
     (case s of
        [] \<Rightarrow> Some []
      | e # t \<Rightarrow>
          if e = 0x65 \<or> e = 0x45
          then (let sg = (case t of [] \<Rightarrow> [] | g # _ \<Rightarrow> if g = 0x2B \<or> g = 0x2D then [g] else []);
                    ds = takeWhile is_digit (drop (length sg) t)
                in if ds = [] then None else Some (e # sg @ ds))
          else Some [])"

definition lex_number :: "jstring \<Rightarrow> jstring option" where
  "lex_number s =
     (let sg = (case s of [] \<Rightarrow> [] | c # _ \<Rightarrow> if c = 0x2D then [c] else [])
      in case int_part (drop (length sg) s) of
           None \<Rightarrow> None
         | Some ip \<Rightarrow>
             (case frac_part (drop (length (sg @ ip)) s) of
                None \<Rightarrow> None
              | Some fp \<Rightarrow>
                  (case exp_part (drop (length (sg @ ip @ fp)) s) of
                     None \<Rightarrow> None
                   | Some ep \<Rightarrow> Some (sg @ ip @ fp @ ep))))"

fun tokenize :: "jstring \<Rightarrow> token list option" where
  "tokenize [] = Some []"
| "tokenize (c # s) =
     (if json_ws c then tokenize s
      else if c = 0x5B then map_option (Cons LBracket) (tokenize s)
      else if c = 0x5D then map_option (Cons RBracket) (tokenize s)
      else if c = 0x7B then map_option (Cons LBrace) (tokenize s)
      else if c = 0x7D then map_option (Cons RBrace) (tokenize s)
      else if c = 0x2C then map_option (Cons Comma) (tokenize s)
      else if c = 0x3A then map_option (Cons Colon) (tokenize s)
      else if c = 0x22
      then (case lex_string s of
              None \<Rightarrow> None
            | Some (str, n) \<Rightarrow> map_option (Cons (TStr str)) (tokenize (drop n s)))
      else if c = 0x2D \<or> is_digit c
      then (case lex_number (c # s) of
              None \<Rightarrow> None
            | Some num \<Rightarrow> map_option (Cons (TNum num)) (tokenize (drop (length num - 1) s)))
      else if starts_with (js ''true'') (c # s) then map_option (Cons TTrue) (tokenize (drop 3 s))
      else if starts_with (js ''false'') (c # s) then map_option (Cons TFalse) (tokenize (drop 4 s))
      else if starts_with (js ''null'') (c # s) then map_option (Cons TNull) (tokenize (drop 3 s))
      else None)"

subsection \<open>JSON.parse: values\<close>

text \<open>
  Each function returns what it has read and the number of tokens read. \<open>parse_elems\<close>
  reads the elements of an array after a non-closing token has been seen, up to and
  including the closing bracket; \<open>parse_members\<close> does the same for an object.
\<close>

function parse_value :: "token list \<Rightarrow> (json \<times> nat) option"
  and parse_elems :: "json list \<Rightarrow> token list \<Rightarrow> (json list \<times> nat) option"
  and parse_members ::
    "(jstring \<times> json) list \<Rightarrow> token list \<Rightarrow> ((jstring \<times> json) list \<times> nat) option"
where
  "parse_value [] = None"
| "parse_value (t # ts) =
     (case t of
        TNull \<Rightarrow> Some (JNull, 1)
      | TTrue \<Rightarrow> Some (JBool True, 1)
      | TFalse \<Rightarrow> Some (JBool False, 1)
      | TNum n \<Rightarrow> Some (JNum n, 1)
      | TStr s \<Rightarrow> Some (JStr s, 1)
      | LBracket \<Rightarrow>
          (case ts of
             RBracket # _ \<Rightarrow> Some (JArr [], 2)
           | _ \<Rightarrow> map_option (\<lambda>(vs, n). (JArr vs, n + 1)) (parse_elems [] ts))
      | LBrace \<Rightarrow>
          (case ts of
             RBrace # _ \<Rightarrow> Some (JObj [], 2)
           | _ \<Rightarrow> map_option (\<lambda>(kvs, n). (JObj kvs, n + 1)) (parse_members [] ts))
      | _ \<Rightarrow> None)"
| "parse_elems acc ts =
     (case parse_value ts of
        None \<Rightarrow> None
      | Some (v, n) \<Rightarrow>
          (case drop n ts of
             RBracket # _ \<Rightarrow> Some (acc @ [v], n + 1)
           | Comma # ts' \<Rightarrow>
               map_option (\<lambda>(vs, m). (vs, n + 1 + m)) (parse_elems (acc @ [v]) ts')
           | _ \<Rightarrow> None))"
| "parse_members acc ts =
     (case ts of
        TStr k # Colon # ts1 \<Rightarrow>
          (case parse_value ts1 of
             None \<Rightarrow> None
           | Some (v, n) \<Rightarrow>
               (case drop n ts1 of
                  RBrace # _ \<Rightarrow> Some (set_prop k v acc, n + 3)
                | Comma # ts' \<Rightarrow>
                    map_option (\<lambda>(kvs, m). (kvs, n + 3 + m))
                      (parse_members (set_prop k v acc) ts')
                | _ \<Rightarrow> None))
      | _ \<Rightarrow> None)"
  by pat_completeness auto
termination
  apply (relation "measure (\<lambda>x. case x of
          Inl ts \<Rightarrow> 2 * length ts
        | Inr (Inl (acc, ts)) \<Rightarrow> 2 * length ts + 1
        | Inr (Inr (acc, ts)) \<Rightarrow> 2 * length ts + 1)")
  apply simp_all
  subgoal for ts n tk ts' by (drule arg_cong [where f = length]) simp
  subgoal for ts1 n ts' by (drule arg_cong [where f = length]) simp
  done

text \<open>\<open>JSON.parse\<close>: \<open>None\<close> stands for the \<open>SyntaxError\<close> it throws.\<close>

definition JSON_parse :: "jstring \<Rightarrow> json option" where
  "JSON_parse s =
     (case tokenize s of
        None \<Rightarrow> None
      | Some ts \<Rightarrow>
          (case parse_value ts of
             None \<Rightarrow> None
           | Some (v, n) \<Rightarrow> if n = length ts then Some v else None))"

subsection \<open>JSON.stringify(value, null, 2)\<close>

definition hex_digit :: "cu \<Rightarrow> cu" where
  "hex_digit n = (if n < 10 then 0x30 + n else 0x57 + n)"

definition unicode_escape :: "cu \<Rightarrow> jstring" where
  "unicode_escape c =
     [0x5C, 0x75, hex_digit (c div 0x1000), hex_digit (c div 0x100 mod 0x10),
      hex_digit (c div 0x10 mod 0x10), hex_digit (c mod 0x10)]"










section \<open>POST /api/transcribe (route.ts, lines 44-171)\<close>

subsection \<open>The request, the response and the world of the handler\<close>

record File =
  file_name :: jstring
  file_type :: jstring
  file_bytes :: "8 word list"

text \<open>What \<open>formData.get\<close> returns for a field that is present: a file or a string.\<close>

datatype form_value = FileValue File | StringValue jstring

text \<open>\<open>request.formData()\<close> rejects when the body is not a form.\<close>

record request =
  formData :: "thrown + (jstring \<times> form_value) list"

record response =
  status :: nat
  body :: json

datatype log_line = ConsoleError jstring thrown

text \<open>
  The state the handler reads and changes: the directories and files on disk, the number
  of calls made to the model service, the delays waited, and the console.
\<close>

record world =
  dirs :: "jstring set"
  files :: "jstring \<rightharpoonup> 8 word list"
  model_calls :: nat
  waited :: "int list"
  console :: "log_line list"

text \<open>
  What the handler takes from its platform: the identifier that \<open>uuidv4\<close> returns, the
  working directory, \<open>path.join\<close>, the instruction text of lines 74-114, whether
  \<open>mkdir\<close>, \<open>writeFile\<close> and \<open>unlink\<close> fail, and the model service. The service is given
  the MIME type, the bytes (in base64 in the code) and the instruction text; its answer
  to call number \<open>i\<close> is a rejection or a response, whose \<open>text()\<close> throws or returns
  the reply.
\<close>

type_synonym reply = "thrown + jstring"

record platform =
  uuidv4 :: jstring
  cwd :: jstring
  path_join :: "jstring \<Rightarrow> jstring \<Rightarrow> jstring"
  prompt :: jstring
  mkdir_fault :: "thrown option"
  writeFile_fault :: "thrown option"
  unlink_fault :: "thrown option"
  generateContent :: "jstring \<Rightarrow> 8 word list \<Rightarrow> jstring \<Rightarrow> nat \<Rightarrow> reply outcome"

definition mkdir :: "platform \<Rightarrow> jstring \<Rightarrow> world \<Rightarrow> thrown + world" where
  "mkdir pf d w =
     (case mkdir_fault pf of
        Some e \<Rightarrow> Inl e
      | None \<Rightarrow> Inr (w\<lparr>dirs := insert d (dirs w)\<rparr>))"

definition writeFile :: "platform \<Rightarrow> jstring \<Rightarrow> 8 word list \<Rightarrow> world \<Rightarrow> thrown + world" where
  "writeFile pf path bytes w =
     (case writeFile_fault pf of
        Some e \<Rightarrow> Inl e
      | None \<Rightarrow> Inr (w\<lparr>files := (files w)(path \<mapsto> bytes)\<rparr>))"

definition unlink :: "platform \<Rightarrow> jstring \<Rightarrow> world \<Rightarrow> thrown + world" where
  "unlink pf path w =
     (case unlink_fault pf of
        Some e \<Rightarrow> Inl e
      | None \<Rightarrow>
          if files w path = None then Inl (Error (js ''ENOENT: no such file or directory''))
          else Inr (w\<lparr>files := (files w)(path := None)\<rparr>))"

definition console_error :: "jstring \<Rightarrow> thrown \<Rightarrow> world \<Rightarrow> world" where
  "console_error label e w = w\<lparr>console := console w @ [ConsoleError label e]\<rparr>"

definition error_response :: "nat \<Rightarrow> jstring \<Rightarrow> response" where
  "error_response st msg = \<lparr>status = st, body = JObj [(js ''error'', JStr msg)]\<rparr>"

text \<open>
  A stage of the handler throws, returns a response, or goes on with a value.
\<close>

datatype 'a step = Throw thrown | Return response | Next 'a

subsection \<open>Lines 46-68: the upload and the scratch file\<close>

definition upload :: "platform \<Rightarrow> request \<Rightarrow> world \<Rightarrow> (File \<times> jstring) step \<times> world" where
  "upload pf req w =
     (case formData req of
        Inl e \<Rightarrow> (Throw e, w)
      | Inr form \<Rightarrow>
          (case map_of form (js ''video'') of
             None \<Rightarrow> (Return (error_response 400 (js ''No video file provided'')), w)
           | Some (StringValue s) \<Rightarrow>
               if s = [] then (Return (error_response 400 (js ''No video file provided'')), w)
               else (Throw (Error (js ''file.arrayBuffer is not a function'')), w)
           | Some (FileValue file) \<Rightarrow>
               (let filename = uuidv4 pf @ js ''-'' @ file_name file;
                    uploadDir = path_join pf (cwd pf) (js ''tmp'')
                in case (if uploadDir \<in> dirs w then Inr w else mkdir pf uploadDir w) of
                     Inl e \<Rightarrow> (Throw e, w)
                   | Inr w1 \<Rightarrow>
                       (let filePath = path_join pf uploadDir filename
                        in case writeFile pf filePath (file_bytes file) w1 of
                             Inl e \<Rightarrow> (Throw e, w1)
                           | Inr w2 \<Rightarrow> (Next (file, filePath), w2)))))"

subsection \<open>Lines 70-130: the call to the model under retryWithBackoff\<close>

definition generate :: "platform \<Rightarrow> File \<Rightarrow> world \<Rightarrow> reply outcome \<times> world" where
  "generate pf file w =
     (generateContent pf (file_type file) (file_bytes file) (prompt pf) (model_calls w),
      w\<lparr>model_calls := Suc (model_calls w)\<rparr>)"

definition transcribe :: "platform \<Rightarrow> File \<Rightarrow> world \<Rightarrow> jstring step \<times> world" where
  "transcribe pf file w =
     (case retryWithBackoff_default (generate pf file) w of
        (Rejected e, w', delays) \<Rightarrow> (Throw e, w'\<lparr>waited := waited w' @ delays\<rparr>)
      | (Resolved (Inl e), w', delays) \<Rightarrow> (Throw e, w'\<lparr>waited := waited w' @ delays\<rparr>)
      | (Resolved (Inr text), w', delays) \<Rightarrow> (Next text, w'\<lparr>waited := waited w' @ delays\<rparr>))"

subsection \<open>Lines 133-141: the array in the reply\<close>

text \<open>
  \<open>Inl\<close> is the exception that the \<open>catch\<close> of line 142 receives: the \<open>Error\<close> of line
  140, or the \<open>SyntaxError\<close> of \<open>JSON.parse\<close> (its message is the engine's).
\<close>

definition parse_reply :: "jstring \<Rightarrow> thrown + json" where
  "parse_reply text =
     (case str_match json_array_pattern text of
        Some jsonMatch \<Rightarrow>
          (case JSON_parse jsonMatch of
             Some timeline \<Rightarrow> Inr timeline
           | None \<Rightarrow> Inl (Error (js ''SyntaxError'')))
      | None \<Rightarrow> Inl (Error (js ''No valid JSON found in response'')))"

subsection \<open>Lines 150-163: the file name, the cleanup and the response\<close>

text \<open>The decimal notation of an array index, as a property key.\<close>

fun dec :: "nat \<Rightarrow> jstring" where
  "dec n = (if n < 10 then [0x30 + of_nat n] else dec (n div 10) @ [0x30 + of_nat (n mod 10)])"

text \<open>
  The properties that \<open>{...entry}\<close> copies: those of an object, the elements of an array
  and the code units of a string under their indices, none for a number, a boolean or
  \<open>null\<close>.
\<close>

fun own_props :: "json \<Rightarrow> (jstring \<times> json) list" where
  "own_props (JObj kvs) = kvs"
| "own_props (JArr xs) = zip (map dec [0..<length xs]) xs"
| "own_props (JStr s) = zip (map dec [0..<length s]) (map (\<lambda>c. JStr [c]) s)"
| "own_props v = []"

definition add_filename :: "jstring \<Rightarrow> json \<Rightarrow> json" where
  "add_filename name entry = JObj (set_prop (js ''filename'') (JStr name) (own_props entry))"

definition respond ::
  "platform \<Rightarrow> File \<Rightarrow> jstring \<Rightarrow> json \<Rightarrow> world \<Rightarrow> (thrown + response) \<times> world" where
  "respond pf file filePath timeline w =
     (case timeline of
        JArr entries \<Rightarrow>
          (let timeline' = map (add_filename (file_name file)) entries;
               w' = (case unlink pf filePath w of
                       Inl e \<Rightarrow> console_error (js ''Error deleting temporary file:'') e w
                     | Inr w1 \<Rightarrow> w1)
           in (Inr \<lparr>status = 200, body = JArr timeline'\<rparr>, w'))
      | _ \<Rightarrow> (Inl (Error (js ''timeline.map is not a function'')), w))"

subsection \<open>The handler\<close>

text \<open>The body of the outer \<open>try\<close>: \<open>Inl\<close> is an exception that reaches line 164.\<close>

definition POST_body :: "platform \<Rightarrow> request \<Rightarrow> world \<Rightarrow> (thrown + response) \<times> world" where
  "POST_body pf req w =
     (case upload pf req w of
        (Throw e, w1) \<Rightarrow> (Inl e, w1)
      | (Return r, w1) \<Rightarrow> (Inr r, w1)
      | (Next (file, filePath), w1) \<Rightarrow>
          (case transcribe pf file w1 of
             (Throw e, w2) \<Rightarrow> (Inl e, w2)
           | (Return r, w2) \<Rightarrow> (Inr r, w2)
           | (Next text, w2) \<Rightarrow>
               (case parse_reply text of
                  Inl e \<Rightarrow>
                    (Inr (error_response 500 (js ''Failed to parse transcription response'')),
                     console_error (js ''Error parsing Gemini response:'') e w2)
                | Inr timeline \<Rightarrow> respond pf file filePath timeline w2)))"

text \<open>
  The handler with its outer \<open>catch\<close> (lines 164-170). \<open>Inl\<close> would be an exception that
  leaves the handler.
\<close>

definition POST :: "platform \<Rightarrow> request \<Rightarrow> world \<Rightarrow> (thrown + response) \<times> world" where
  "POST pf req w =
     (case POST_body pf req w of
        (Inl e, w') \<Rightarrow>
          (Inr (error_response 500
                  (case e of Error msg \<Rightarrow> msg | NonError \<Rightarrow> js ''Failed to process video'')),
           console_error (js ''Error processing video:'') e w')
      | (Inr r, w') \<Rightarrow> (Inr r, w'))"

section \<open>The download of the client (page.tsx, lines 60-75)\<close>

record client =
  "file" :: "File option"
  isLoading :: bool
  timeline :: "json list"
  error :: "jstring option"



text \<open>The entries as the interface \<open>TimelineEntry\<close> declares them.\<close>

record TimelineEntry =
  filename :: jstring
  tc_in :: jstring
  tc_out :: jstring
  speaker :: jstring
  dialogue :: jstring

section \<open>Concrete requests and platforms\<close>

text \<open>
  A request that uploads a three-byte file, a request without the \<open>video\<close> field, a
  platform whose file operations succeed and whose model service is given by its answer
  to each call, and a world with an empty disk.
\<close>

definition example_file :: File where
  "example_file =
     \<lparr>file_name = js ''clip.mp4'', file_type = js ''video/mp4'', file_bytes = [0, 1, 2]\<rparr>"

definition example_request :: request where
  "example_request = \<lparr>formData = Inr [(js ''video'', FileValue example_file)]\<rparr>"

definition empty_request :: request where
  "empty_request = \<lparr>formData = Inr [(js ''audio'', StringValue (js ''none''))]\<rparr>"

definition example_platform :: "(nat \<Rightarrow> reply outcome) \<Rightarrow> platform" where
  "example_platform service =
     \<lparr>uuidv4 = js ''1b9d6bcd'', cwd = js ''/app'',
      path_join = (\<lambda>a b. a @ js ''/'' @ b), prompt = js ''Transcribe.'',
      mkdir_fault = None, writeFile_fault = None, unlink_fault = None,
      generateContent = (\<lambda>mimeType bytes instruction i. service i)\<rparr>"

definition example_path :: jstring where
  "example_path = js ''/app/tmp/1b9d6bcd-clip.mp4''"

definition initial_world :: world where
  "initial_world = \<lparr>dirs = {}, files = Map.empty, model_calls = 0, waited = [], console = []\<rparr>"

text \<open>A service that always answers with the same reply text.\<close>

definition replies :: "jstring \<Rightarrow> nat \<Rightarrow> reply outcome" where
  "replies text i = Resolved (Inr text)"

text \<open>A service that rejects every call with an error that is not a rate limit.\<close>

definition refuses :: "nat \<Rightarrow> reply outcome" where
  "refuses i = Rejected (Error (js ''[403 Forbidden] API key not valid''))"

text \<open>The world after the upload of \<open>example_request\<close>, and after one call to the service.\<close>

definition stored_world :: world where
  "stored_world =
     \<lparr>dirs = {js ''/app/tmp''}, files = [example_path \<mapsto> [0, 1, 2]], model_calls = 0,
      waited = [], console = []\<rparr>"

definition called_world :: world where
  "called_world = stored_world\<lparr>model_calls := 1\<rparr>"

text \<open>A platform on which the scratch file cannot be deleted.\<close>

definition undeletable :: "platform \<Rightarrow> platform" where
  "undeletable pf = pf\<lparr>unlink_fault := Some (Error (js ''EPERM: operation not permitted''))\<rparr>"



text \<open>A reply with two arrays.\<close>

definition two_arrays :: jstring where
  "two_arrays = js ''[{}] and [{}]''"

section \<open>Values that the export encodes without loss\<close>

text \<open>
  A value without numbers (their double values are not modelled) in which no object has
  two properties of the same name: the entries of a timeline, whose fields are strings,
  are of this kind.
\<close>

fun plain :: "json \<Rightarrow> bool" where
  "plain JNull = True"
| "plain (JBool b) = True"
| "plain (JNum n) = False"
| "plain (JStr s) = True"
| "plain (JArr xs) = (\<forall>x\<in>set xs. plain x)"
| "plain (JObj kvs) = (distinct (map fst kvs) \<and> (\<forall>kv\<in>set kvs. plain (snd kv)))"

definition entry_json :: "TimelineEntry \<Rightarrow> json" where
  "entry_json e =
     JObj [(js ''tc_in'', JStr (tc_in e)), (js ''tc_out'', JStr (tc_out e)),
           (js ''speaker'', JStr (speaker e)), (js ''dialogue'', JStr (dialogue e)),
           (js ''filename'', JStr (filename e))]"





section \<open>Properties of retryWithBackoff\<close>

lemma retry_loop_always_limited:
  assumes "always_rate_limited fn"
  shows "r \<le> nat m \<Longrightarrow>
    retry_loop (counting fn) m d r w (c, s) =
      (fst (fn (state_after fn (nat m - r) s)),
       (c + (nat m - r) + 1, snd (fn (state_after fn (nat m - r) s))),
       w @ map (\<lambda>k. d * 2 ^ k) [r..<nat m])"
proof (induction "nat m - r" arbitrary: r w c s)
  case 0
  then have rm: "int r \<ge> m" by simp
  obtain err where e: "fst (fn s) = Rejected err" "rate_limited err"
    using assms unfolding always_rate_limited_def by blast
  obtain s' where fs: "fn s = (Rejected err, s')" using e by (cases "fn s") simp
  from 0 have z: "nat m - r = 0" by simp
  show ?case using rm fs z
    by (subst retry_loop.simps) (simp add: counting_def)
next
  case (Suc k)
  then have rm: "\<not> int r \<ge> m" by linarith
  obtain err where e: "fst (fn s) = Rejected err" "rate_limited err"
    using assms unfolding always_rate_limited_def by blast
  obtain s' where fs: "fn s = (Rejected err, s')" using e by (cases "fn s") simp
  have k: "k = nat m - Suc r" using Suc.hyps(2) by simp
  have le: "Suc r \<le> nat m" using Suc.hyps(2) by simp
  have step: "retry_loop (counting fn) m d r w (c, s) =
     retry_loop (counting fn) m d (Suc r) (w @ [d * 2 ^ r]) (Suc c, s')"
    using rm fs e(2) by (subst retry_loop.simps) (simp add: counting_def)
  have sa: "state_after fn (nat m - r) s = state_after fn (nat m - Suc r) s'"
    using Suc.hyps(2) fs by (metis k snd_conv state_after.simps(2))
  have up: "[r..<nat m] = r # [Suc r..<nat m]"
    using le by (simp add: upt_conv_Cons)
  show ?case
    unfolding step Suc.hyps(1)[OF k le] sa up using le by simp
qed

text \<open>
  C2, as the code has it. When every invocation fails with a rate-limit failure,
  \<open>retryWithBackoff\<close> invokes the operation \<open>maxRetries + 1\<close> times (once when
  \<open>maxRetries \<le> 0\<close>; four times at the default 3), waits \<open>initialDelay * 2 ^ k\<close> after
  the failure of invocation \<open>k\<close> for every \<open>k < maxRetries\<close> (1000, 2000, 4000 ms at the
  defaults), and settles with the failure of the last invocation.
\<close>

theorem retryWithBackoff_rate_limited:
  assumes "always_rate_limited fn"
  shows "retryWithBackoff (counting fn) maxRetries initialDelay (0, s) =
     (fst (fn (state_after fn (nat maxRetries) s)),
      (nat maxRetries + 1, snd (fn (state_after fn (nat maxRetries) s))),
      map (\<lambda>k. initialDelay * 2 ^ k) [0..<nat maxRetries])"
  unfolding retryWithBackoff_def
  using retry_loop_always_limited [OF assms, of 0 maxRetries initialDelay "[]" 0 s]
  by simp

theorem retryWithBackoff_rate_limited_witness:
  "always_rate_limited op_429 \<and>
   retryWithBackoff (counting op_429) 3 1000 (0, ()) =
     (Rejected (Error (js ''[429 Too Many Requests]'')), (4, ()), [1000, 2000, 4000])"
proof -
  have h: "always_rate_limited op_429"
    by (simp add: always_rate_limited_def op_429_def js_def)
  have u: "[0..<3] = [0, Suc 0, Suc (Suc 0)]"
    by (simp add: upt_conv_Cons)
  show ?thesis
    using h retryWithBackoff_rate_limited [OF h, of 3 1000 "()"]
    by (simp add: op_429_def u)
qed

text \<open>
  C2 as stated ("at most maxAttempts invocations, default 3") fails: at the defaults an
  operation that is always rate limited is invoked four times.
\<close>

theorem retryWithBackoff_attempts_counterexample:
  "always_rate_limited op_429 \<and>
   \<not> invocations (retryWithBackoff (counting op_429) 3 1000 (0, ())) \<le> 3"
proof -
  have h: "always_rate_limited op_429"
    by (simp add: always_rate_limited_def op_429_def js_def)
  have "retryWithBackoff (counting op_429) 3 1000 (0, ()) =
     (Rejected (Error (js ''[429 Too Many Requests]'')), (4, ()), [1000, 2000, 4000])"
    by (simp add: retryWithBackoff_def counting_def op_429_def js_def)
  then show ?thesis using h by (simp add: invocations_def)
qed

text \<open>
  C3. When the first invocation fails with a failure that is not a rate-limit failure,
  \<open>retryWithBackoff\<close> settles with that failure after exactly one invocation and
  without any delay.
\<close>

theorem retryWithBackoff_other_failure_once:
  assumes "fn s = (Rejected err, s')" and "\<not> rate_limited err"
  shows "retryWithBackoff (counting fn) maxRetries initialDelay (0, s) =
     (Rejected err, (1, s'), [])"
  using assms by (simp add: retryWithBackoff_def counting_def)

theorem retryWithBackoff_other_failure_once_witness:
  "op_500 () = (Rejected (Error (js ''[500 Internal Server Error]'')), ()) \<and>
   \<not> rate_limited (Error (js ''[500 Internal Server Error]'')) \<and>
   retryWithBackoff (counting op_500) 3 1000 (0, ()) =
     (Rejected (Error (js ''[500 Internal Server Error]'')), (1, ()), [])"
proof -
  have a: "op_500 () = (Rejected (Error (js ''[500 Internal Server Error]'')), ())"
    by (simp add: op_500_def)
  have b: "\<not> rate_limited (Error (js ''[500 Internal Server Error]''))"
    by (simp add: js_def)
  show ?thesis
    using a b
      retryWithBackoff_other_failure_once
        [of op_500 "()" "Error (js ''[500 Internal Server Error]'')" "()" 3 1000]
    by simp
qed

section \<open>Properties of the pattern search\<close>

lemma match_here_sound:
  "match_here r s = Some n \<Longrightarrow> n \<le> length s \<and> lang r (take n s)"
proof (induction r s arbitrary: n rule: match_here.induct)
  case (1 s)
  then show ?case by simp
next
  case (2 p r)
  then show ?case by simp
next
  case (3 p r c s)
  then show ?case by (auto split: if_splits)
next
  case (4 p r)
  then show ?case by simp
next
  case (5 p r c s)
  show ?case
  proof (cases "p c")
    case True
    show ?thesis
    proof (cases "match_here (Star p # r) s")
      case None
      with True 5 show ?thesis by (cases n) auto
    next
      case (Some m)
      with True 5 show ?thesis by auto
    qed
  next
    case False
    with 5 show ?thesis by (cases n) auto
  qed
qed

lemma match_here_complete:
  "lang r w \<Longrightarrow> \<exists>n. match_here r (w @ t) = Some n"
proof (induction r w rule: lang.induct)
  case (1 w)
  then show ?case by simp
next
  case (2 p r)
  then show ?case by simp
next
  case (3 p r c w)
  then show ?case by auto
next
  case (4 p r)
  then show ?case by (cases t) (auto split: option.splits)
next
  case (5 p r c w)
  then show ?case by (auto split: option.splits)
qed

lemma str_match_Some:
  "str_match r text = Some m \<Longrightarrow>
     \<exists>i. i \<le> length text \<and> match_here r (drop i text) = Some (length m) \<and> m = take (length m) (drop i text)
        \<and> (\<forall>j<i. match_here r (drop j text) = None)"
proof (induction "text")
  case Nil
  then obtain z where z: "match_here r [] = Some z" "m = []" by auto
  from match_here_sound[OF z(1)] have "z = 0" by simp
  with z show ?case by simp
next
  case (Cons c s)
  show ?case
  proof (cases "match_here r (c # s)")
    case (Some n)
    with Cons.prems have m: "m = take n (c # s)" by simp
    from match_here_sound[OF Some] have "n \<le> length (c # s)" by simp
    with m have "length m = n" by simp
    with Some m show ?thesis by (intro exI[where x = 0]) simp
  next
    case None
    with Cons.prems have "str_match r s = Some m" by simp
    from Cons.IH[OF this] obtain i where i: "i \<le> length s" "match_here r (drop i s) = Some (length m)"
      "m = take (length m) (drop i s)" "\<forall>j<i. match_here r (drop j s) = None" by blast
    have "\<forall>j<Suc i. match_here r (drop j (c # s)) = None"
    proof (intro allI impI)
      fix j assume "j < Suc i"
      then show "match_here r (drop j (c # s)) = None"
        using None i(4) by (cases j) auto
    qed
    with i show ?thesis by (intro exI[where x = "Suc i"]) simp
  qed
qed

lemma str_match_None:
  "str_match r text = None \<Longrightarrow> j \<le> length text \<Longrightarrow> match_here r (drop j text) = None"
proof (induction "text" arbitrary: j)
  case Nil
  then show ?case by (auto split: option.splits)
next
  case (Cons c s)
  then show ?case by (cases j) (auto split: option.splits)
qed

lemma str_match_None_iff:
  "str_match r s = None \<longleftrightarrow> (\<forall>i n. \<not> occurs_at r s i n)"
proof
  assume none: "str_match r s = None"
  show "\<forall>i n. \<not> occurs_at r s i n"
  proof (intro allI notI)
    fix i n assume "occurs_at r s i n"
    then have le: "i + n \<le> length s" and l: "lang r (take n (drop i s))"
      by (simp_all add: occurs_at_def)
    have "take n (drop i s) @ drop n (drop i s) = drop i s" by (rule append_take_drop_id)
    with match_here_complete[OF l, of "drop n (drop i s)"]
    obtain k where "match_here r (drop i s) = Some k" by (auto simp del: drop_drop)
    moreover from le have "i \<le> length s" by simp
    ultimately show False using str_match_None[OF none, of i] by simp
  qed
next
  assume no: "\<forall>i n. \<not> occurs_at r s i n"
  show "str_match r s = None"
  proof (rule ccontr)
    assume "str_match r s \<noteq> None"
    then obtain m where "str_match r s = Some m" by auto
    from str_match_Some[OF this] obtain i where i: "i \<le> length s"
      "match_here r (drop i s) = Some (length m)" by blast
    from match_here_sound[OF i(2)] have "occurs_at r s i (length m)"
      using i(1) by (auto simp add: occurs_at_def)
    with no show False by blast
  qed
qed

lemma no_bracket_no_match:
  "0x5B \<notin> set s \<Longrightarrow> str_match json_array_pattern s = None"
  by (induction s) (simp_all add: json_array_pattern_def)

lemma empty_array_no_match:
  assumes "0x5B \<notin> set pre" and "0x5B \<notin> set post"
  shows "str_match json_array_pattern (pre @ js ''[]'' @ post) = None"
  using assms(1)
proof (induction pre)
  case Nil
  have "str_match json_array_pattern (0x5D # post) = None"
    using assms(2) by (intro no_bracket_no_match) simp
  then show ?case
    by (simp add: js_def json_array_pattern_def is_space_def)
next
  case (Cons c pre)
  then show ?case by (simp add: json_array_pattern_def)
qed

lemma json_array_pattern_split:
  "json_array_pattern = One (\<lambda>c. c = 0x5B) # Star is_space # One (\<lambda>c. c = 0x7B) # mid_pattern"
  by (simp add: json_array_pattern_def mid_pattern_def tail_pattern_def)

text \<open>White space up to a delimiter that is not white space: the run is determined.\<close>

lemma match_space_run:
  assumes "\<not> is_space x" and "\<forall>c\<in>set ws. is_space c"
  shows "match_here (Star is_space # One (\<lambda>c. c = x) # r) (ws @ x # s) =
           map_option (\<lambda>m. length ws + 1 + m) (match_here r s)"
  using assms(2)
proof (induction ws)
  case Nil
  show ?case using assms(1) by (cases "match_here r s") simp_all
next
  case (Cons c ws)
  then have sp: "is_space c" and IH: "match_here (Star is_space # One (\<lambda>c. c = x) # r) (ws @ x # s) =
           map_option (\<lambda>m. length ws + 1 + m) (match_here r s)" by simp_all
  from sp assms(1) have cx: "c \<noteq> x" by auto
  show ?case using sp cx IH by (cases "match_here r s") simp_all
qed

lemma lang_space_then:
  assumes "\<not> is_space x"
  shows "lang (Star is_space # One (\<lambda>c. c = x) # r) w \<Longrightarrow>
     \<exists>ws u. w = ws @ x # u \<and> (\<forall>c\<in>set ws. is_space c) \<and> lang r u"
proof (induction w)
  case Nil
  then show ?case by simp
next
  case (Cons c w)
  from Cons.prems have "(c = x \<and> lang r w) \<or> (is_space c \<and> lang (Star is_space # One (\<lambda>c. c = x) # r) w)"
    by simp
  then show ?case
  proof
    assume "c = x \<and> lang r w"
    then show ?thesis by (intro exI[where x = "[]"] exI[where x = w]) simp
  next
    assume a: "is_space c \<and> lang (Star is_space # One (\<lambda>c. c = x) # r) w"
    with Cons.IH obtain ws u where "w = ws @ x # u" "\<forall>c\<in>set ws. is_space c" "lang r u" by blast
    with a show ?thesis by (intro exI[where x = "c # ws"] exI[where x = u]) simp
  qed
qed

lemma space_run_unique:
  assumes "ws1 @ x # r1 = ws2 @ x # r2" "\<forall>c\<in>set ws1. is_space c" "\<forall>c\<in>set ws2. is_space c"
    "\<not> is_space x"
  shows "ws1 = ws2 \<and> r1 = r2"
  using assms
proof (induction ws1 arbitrary: ws2)
  case Nil
  then show ?case by (cases ws2) auto
next
  case (Cons a ws1)
  then show ?case by (cases ws2) auto
qed

lemma not_space_delims [simp]:
  "\<not> is_space 0x5B" "\<not> is_space 0x5D" "\<not> is_space 0x7B" "\<not> is_space 0x7D"
  by (simp_all add: is_space_def)

lemma lang_any_star:
  "lang (Star (\<lambda>c. is_space c \<or> \<not> is_space c) # r) w \<Longrightarrow> \<exists>u v. w = u @ v \<and> lang r v"
proof (induction w)
  case Nil
  then show ?case by simp
next
  case (Cons c w)
  from Cons.prems have "lang r (c # w) \<or> lang (Star (\<lambda>c. is_space c \<or> \<not> is_space c) # r) w"
    by auto
  then show ?case
  proof
    assume "lang r (c # w)"
    then show ?thesis by (intro exI[where x = "[]"] exI[where x = "c # w"]) simp
  next
    assume "lang (Star (\<lambda>c. is_space c \<or> \<not> is_space c) # r) w"
    with Cons.IH obtain u v where "w = u @ v" "lang r v" by blast
    then show ?thesis by (intro exI[where x = "c # u"] exI[where x = v]) simp
  qed
qed

text \<open>The shape of the strings of the tail and of the whole pattern.\<close>

lemma lang_tail_shape:
  "lang tail_pattern v \<Longrightarrow> \<exists>ws. v = 0x7D # ws @ [0x5D] \<and> (\<forall>c\<in>set ws. is_space c)"
proof -
  assume l: "lang tail_pattern v"
  then obtain w where v: "v = 0x7D # w" and "lang [Star is_space, One (\<lambda>c. c = 0x5D)] w"
    by (cases v) (auto simp: tail_pattern_def)
  from lang_space_then [OF not_space_delims(2) this(2)]
  obtain ws u where "w = ws @ 0x5D # u" "\<forall>c\<in>set ws. is_space c" "lang [] u" by blast
  with v show ?thesis by simp
qed

lemma lang_pattern_shape:
  assumes "lang json_array_pattern v"
  shows "\<exists>ws u t. v = 0x5B # ws @ 0x7B # u @ t \<and> (\<forall>c\<in>set ws. is_space c) \<and> lang tail_pattern t"
proof -
  from assms obtain w where v: "v = 0x5B # w"
    and "lang (Star is_space # One (\<lambda>c. c = 0x7B) # mid_pattern) w"
    by (cases v) (auto simp: json_array_pattern_split)
  from lang_space_then [OF not_space_delims(3) this(2)]
  obtain ws r where w: "w = ws @ 0x7B # r" "\<forall>c\<in>set ws. is_space c" "lang mid_pattern r" by blast
  from lang_any_star [OF this(3) [unfolded mid_pattern_def]]
  obtain u t where "r = u @ t" "lang tail_pattern t" by blast
  with v w show ?thesis
    by (intro exI[where x = ws] exI[where x = u] exI[where x = t]) simp
qed

text \<open>The tail is matched in one way only.\<close>

lemma match_tail_exact:
  assumes "lang tail_pattern t"
  shows "match_here tail_pattern (t @ rest) = Some (length t)"
proof -
  from lang_tail_shape [OF assms] obtain ws where t: "t = 0x7D # ws @ [0x5D]"
    and ws: "\<forall>c\<in>set ws. is_space c" by blast
  have "match_here [Star is_space, One (\<lambda>c. c = 0x5D)] (ws @ 0x5D # rest) = Some (length ws + 1)"
    using match_space_run [OF not_space_delims(2) ws, of "[]" rest] by simp
  then show ?thesis by (simp add: t tail_pattern_def)
qed

lemma match_tail_index:
  assumes "match_here tail_pattern t = Some m"
  shows "2 \<le> m \<and> m \<le> length t \<and> t ! 0 = 0x7D \<and> t ! (m - 1) = 0x5D \<and>
         (\<forall>j. 0 < j \<and> j < m - 1 \<longrightarrow> is_space (t ! j))"
proof -
  from match_here_sound [OF assms] have m: "m \<le> length t" and l: "lang tail_pattern (take m t)"
    by simp_all
  from lang_tail_shape [OF l] obtain ws where tk: "take m t = 0x7D # ws @ [0x5D]"
    and ws: "\<forall>c\<in>set ws. is_space c" by blast
  from tk m have len: "m = length ws + 2"
    by (metis One_nat_def Suc_eq_plus1 add_Suc_right length_Cons length_append length_take list.size(3) min.absorb2 nat_1_add_1)
  have nth: "\<And>j. j < m \<Longrightarrow> t ! j = (0x7D # ws @ [0x5D]) ! j"
    using tk by (metis nth_take)
  have "t ! 0 = 0x7D" using nth [of 0] len by simp
  moreover have "t ! (m - 1) = 0x5D" using nth [of "m - 1"] len by (simp add: nth_append)
  moreover have "\<forall>j. 0 < j \<and> j < m - 1 \<longrightarrow> is_space (t ! j)"
  proof (intro allI impI)
    fix j assume j: "0 < j \<and> j < m - 1"
    then have "t ! j = ws ! (j - 1)" using nth [of j] len by (cases j) (auto simp: nth_append)
    moreover have "ws ! (j - 1) \<in> set ws" using j len by (intro nth_mem) linarith
    ultimately show "is_space (t ! j)" using ws by simp
  qed
  ultimately show ?thesis using len m by simp
qed

lemma star_any_None:
  "match_here (Star (\<lambda>c. is_space c \<or> \<not> is_space c) # r) s = None \<Longrightarrow> k \<le> length s \<Longrightarrow>
     match_here r (drop k s) = None"
proof (induction s arbitrary: k)
  case Nil
  then show ?case by simp
next
  case (Cons c s)
  from Cons.prems(1) have a: "match_here (Star (\<lambda>c. is_space c \<or> \<not> is_space c) # r) s = None"
    and b: "match_here r (c # s) = None"
    by (auto split: option.splits)
  show ?case
  proof (cases k)
    case 0
    with b show ?thesis by simp
  next
    case (Suc k')
    with Cons.prems(2) Cons.IH [OF a, of k'] show ?thesis by simp
  qed
qed

lemma star_any_Some:
  "match_here (Star (\<lambda>c. is_space c \<or> \<not> is_space c) # r) s = Some n \<Longrightarrow>
     \<exists>k m. k \<le> length s \<and> match_here r (drop k s) = Some m \<and> n = k + m \<and>
       (\<forall>k'. k < k' \<and> k' \<le> length s \<longrightarrow> match_here r (drop k' s) = None)"
proof (induction s arbitrary: n)
  case Nil
  then show ?case by simp
next
  case (Cons c s)
  show ?case
  proof (cases "match_here (Star (\<lambda>c. is_space c \<or> \<not> is_space c) # r) s")
    case None
    with Cons.prems have here: "match_here r (c # s) = Some n" by simp
    have "\<forall>k'. 0 < k' \<and> k' \<le> length (c # s) \<longrightarrow> match_here r (drop k' (c # s)) = None"
    proof (intro allI impI)
      fix k' assume k': "0 < k' \<and> k' \<le> length (c # s)"
      then obtain j where j: "k' = Suc j" by (cases k') auto
      with k' star_any_None [OF None, of j] show "match_here r (drop k' (c # s)) = None" by simp
    qed
    with here show ?thesis
      by (intro exI[where x = 0] exI[where x = n]) simp
  next
    case (Some n0)
    with Cons.prems have n: "n = Suc n0" by simp
    from Cons.IH [OF Some] obtain k m where km: "k \<le> length s" "match_here r (drop k s) = Some m"
      "n0 = k + m" "\<forall>k'. k < k' \<and> k' \<le> length s \<longrightarrow> match_here r (drop k' s) = None" by blast
    have "\<forall>k'. Suc k < k' \<and> k' \<le> length (c # s) \<longrightarrow> match_here r (drop k' (c # s)) = None"
    proof (intro allI impI)
      fix k' assume k': "Suc k < k' \<and> k' \<le> length (c # s)"
      then obtain j where j: "k' = Suc j" by (cases k') auto
      with k' km(4) show "match_here r (drop k' (c # s)) = None" by simp
    qed
    with km n show ?thesis
      by (intro exI[where x = "Suc k"] exI[where x = m]) simp
  qed
qed

text \<open>Two occurrences of the tail do not overlap: the later one ends later.\<close>

lemma tail_ends_ordered:
  assumes a: "match_here tail_pattern (drop o1 s) = Some m1"
      and b: "match_here tail_pattern (drop o2 s) = Some m2"
      and le: "o1 \<le> o2" "o2 \<le> length s"
  shows "o1 + m1 \<le> o2 + m2"
proof (cases "o1 = o2")
  case True
  with a b show ?thesis by simp
next
  case False
  with le have lt: "o1 < o2" by simp
  from match_tail_index [OF a] have a': "2 \<le> m1" "m1 \<le> length (drop o1 s)"
    "drop o1 s ! (m1 - 1) = 0x5D" "\<forall>j. 0 < j \<and> j < m1 - 1 \<longrightarrow> is_space (drop o1 s ! j)"
    by simp_all
  from match_tail_index [OF b] have b': "2 \<le> m2" "m2 \<le> length (drop o2 s)" "drop o2 s ! 0 = 0x7D"
    by simp_all
  from b' have o2: "o2 < length s" by simp
  then have s2: "s ! o2 = 0x7D" using b'(3) by simp
  show ?thesis
  proof (rule ccontr)
    assume "\<not> o1 + m1 \<le> o2 + m2"
    then have in_span: "o2 - o1 < m1" using b'(1) lt by arith
    have nth: "drop o1 s ! (o2 - o1) = s ! o2"
      using lt o2 by simp
    show False
    proof (cases "o2 - o1 = m1 - 1")
      case True
      with a'(3) nth s2 show False by simp
    next
      case False
      with in_span lt have "0 < o2 - o1 \<and> o2 - o1 < m1 - 1" by simp
      with a'(4) have "is_space (drop o1 s ! (o2 - o1))" by blast
      with nth s2 show False by simp
    qed
  qed
qed

lemma pattern_match_split:
  assumes "match_here json_array_pattern s = Some N"
  shows "\<exists>ws s2 M. s = (0x5B # ws @ [0x7B]) @ s2 \<and> (\<forall>c\<in>set ws. is_space c) \<and>
           match_here mid_pattern s2 = Some M \<and> N = length ws + 2 + M"
proof -
  from assms obtain s1 N1 where s: "s = 0x5B # s1" and N: "N = Suc N1"
    and m1: "match_here (Star is_space # One (\<lambda>c. c = 0x7B) # mid_pattern) s1 = Some N1"
    by (cases s) (auto simp: json_array_pattern_split split: if_splits)
  from match_here_sound [OF m1] have le: "N1 \<le> length s1"
    and l: "lang (Star is_space # One (\<lambda>c. c = 0x7B) # mid_pattern) (take N1 s1)" by simp_all
  from lang_space_then [OF not_space_delims(3) l]
  obtain ws u where tk: "take N1 s1 = ws @ 0x7B # u" and ws: "\<forall>c\<in>set ws. is_space c" by blast
  define s2 where "s2 = u @ drop N1 s1"
  have "s1 = take N1 s1 @ drop N1 s1" by (rule append_take_drop_id [symmetric])
  then have s1: "s1 = ws @ 0x7B # s2"
    unfolding tk s2_def by simp
  from m1 match_space_run [OF not_space_delims(3) ws, of mid_pattern s2]
  obtain M where "match_here mid_pattern s2 = Some M" "N1 = length ws + 1 + M"
    unfolding s1 by auto
  with s s1 N ws show ?thesis
    by (intro exI[where x = ws] exI[where x = s2] exI[where x = M]) simp
qed

lemma occurrence_tail:
  assumes s: "s = (0x5B # ws @ [0x7B]) @ s2" and ws: "\<forall>c\<in>set ws. is_space c"
      and occ: "occurs_at json_array_pattern s d n"
  shows "\<exists>o1 t. o1 + length t \<le> length s2 \<and> lang tail_pattern t \<and>
           take (length t) (drop o1 s2) = t \<and> o1 + length t + (length ws + 2) = d + n"
proof -
  from occ have dn: "d + n \<le> length s" and l: "lang json_array_pattern (take n (drop d s))"
    by (simp_all add: occurs_at_def)
  from lang_pattern_shape [OF l] obtain wsB u t where
    v: "take n (drop d s) = 0x5B # wsB @ 0x7B # u @ t" and wsB: "\<forall>c\<in>set wsB. is_space c"
    and t: "lang tail_pattern t" by blast
  define q where "q = drop n (drop d s)"
  have "drop d s = take n (drop d s) @ q"
    unfolding q_def by (rule append_take_drop_id [symmetric])
  then have ds: "drop d s = 0x5B # wsB @ 0x7B # u @ t @ q"
    unfolding v by simp
  have "length (take n (drop d s)) = n" using dn by simp
  then have n: "n = length wsB + 2 + length u + length t"
    unfolding v by simp
  show ?thesis
  proof (cases "d = 0")
    case True
    with ds s have "ws @ 0x7B # s2 = wsB @ 0x7B # u @ t @ q" by simp
    from space_run_unique [OF this ws wsB not_space_delims(3)]
    have e: "ws = wsB" "s2 = u @ t @ q" by simp_all
    show ?thesis
      using e n True t
      by (intro exI[where x = "length u"] exI[where x = t]) simp
  next
    case False
    have sd: "s ! d = 0x5B" using ds by (rule nth_via_drop)
    have ge: "length ws + 2 \<le> d"
    proof (rule ccontr)
      assume "\<not> length ws + 2 \<le> d"
      then have lt: "d < length ws + 2" by simp
      show False
      proof (cases "d = length ws + 1")
        case True
        then have "s ! d = 0x7B" unfolding s by (simp add: nth_append)
        with sd show False by simp
      next
        case F: False
        with lt False have d: "0 < d" "d - 1 < length ws" by simp_all
        then have "s ! d = ws ! (d - 1)" unfolding s by (cases d) (simp_all add: nth_append)
        moreover have "ws ! (d - 1) \<in> set ws" using d by simp
        ultimately have "is_space (s ! d)" using ws by simp
        with sd show False by simp
      qed
    qed
    define e where "e = d - (length ws + 2)"
    have "drop d (0x5B # ws @ [0x7B]) = []"
      using ge by (intro drop_all) simp
    moreover have "drop d s =
        drop d (0x5B # ws @ [0x7B]) @ drop (d - length (0x5B # ws @ [0x7B])) s2"
      unfolding s by (rule drop_append)
    ultimately have "drop d s = drop e s2"
      unfolding e_def by simp
    with ds have d2: "drop e s2 = (0x5B # wsB @ 0x7B # u) @ t @ q" by simp
    have d3: "drop (e + (length wsB + 2 + length u)) s2 = t @ q"
    proof -
      have "drop (e + (length wsB + 2 + length u)) s2 = drop (length wsB + 2 + length u) (drop e s2)"
        by (simp add: add.commute)
      also have "\<dots> = t @ q" unfolding d2 by simp
      finally show ?thesis .
    qed
    have len: "e + (length wsB + 2 + length u) + length t \<le> length s2"
    proof -
      from lang_tail_shape [OF t] have pos: "0 < length t" by auto
      have "length (drop (e + (length wsB + 2 + length u)) s2) = length t + length q"
        unfolding d3 by simp
      then have "length s2 - (e + (length wsB + 2 + length u)) = length t + length q"
        by (simp only: length_drop)
      with pos show ?thesis by arith
    qed
    show ?thesis
      using d3 len t n ge e_def
      by (intro exI[where x = "e + (length wsB + 2 + length u)"] exI[where x = t]) simp
  qed
qed

lemma pattern_last_end:
  assumes m: "match_here json_array_pattern s = Some N"
      and occ: "occurs_at json_array_pattern s d n"
  shows "d + n \<le> N"
proof -
  from pattern_match_split [OF m] obtain ws s2 M where
    s: "s = (0x5B # ws @ [0x7B]) @ s2" and ws: "\<forall>c\<in>set ws. is_space c"
    and mid: "match_here mid_pattern s2 = Some M" and N: "N = length ws + 2 + M" by blast
  from star_any_Some [OF mid [unfolded mid_pattern_def]] obtain k mT where
    k: "k \<le> length s2" "match_here tail_pattern (drop k s2) = Some mT" "M = k + mT"
    "\<forall>k'. k < k' \<and> k' \<le> length s2 \<longrightarrow> match_here tail_pattern (drop k' s2) = None" by blast
  from occurrence_tail [OF s ws occ] obtain o1 t where
    o: "o1 + length t \<le> length s2" "lang tail_pattern t" "take (length t) (drop o1 s2) = t"
    "o1 + length t + (length ws + 2) = d + n" by blast
  define q where "q = drop (length t) (drop o1 s2)"
  have "drop o1 s2 = take (length t) (drop o1 s2) @ q"
    unfolding q_def by (rule append_take_drop_id [symmetric])
  then have "drop o1 s2 = t @ q"
    unfolding o(3) .
  with match_tail_exact [OF o(2), of q]
  have mt: "match_here tail_pattern (drop o1 s2) = Some (length t)" by simp
  have "o1 \<le> k"
  proof (rule ccontr)
    assume "\<not> o1 \<le> k"
    with o(1) k(4) have "match_here tail_pattern (drop o1 s2) = None" by simp
    with mt show False by simp
  qed
  from tail_ends_ordered [OF mt k(2) this k(1)] have "o1 + length t \<le> k + mT" .
  with o(4) k(3) N show ?thesis by simp
qed

lemma two_arrays_occurs: "occurs_at json_array_pattern two_arrays 0 4"
  by (simp add: occurs_at_def two_arrays_def js_def json_array_pattern_def is_space_def)

text \<open>
  C4, as the code has it. When the reply holds a substring that matches the pattern, the
  search selects the substring that starts where the first matching substring starts
  and ends where the last matching substring ends (the longest match from the first
  start), and \<open>JSON.parse\<close> is given exactly that substring. Prose before the first
  opening bracket-brace is tolerated; prose after the array is tolerated as long as no
  closing brace-bracket follows in it.
\<close>

theorem parse_reply_first_start_last_end:
  assumes "occurs_at json_array_pattern reply i n"
  shows "\<exists>i0 m. str_match json_array_pattern reply = Some m \<and>
           m = take (length m) (drop i0 reply) \<and>
           occurs_at json_array_pattern reply i0 (length m) \<and>
           (\<forall>i' n'. occurs_at json_array_pattern reply i' n' \<longrightarrow>
              i0 \<le> i' \<and> i' + n' \<le> i0 + length m) \<and>
           parse_reply reply =
             (case JSON_parse m of
                Some decoded \<Rightarrow> Inr decoded
              | None \<Rightarrow> Inl (Error (js ''SyntaxError'')))"
proof -
  from assms have "str_match json_array_pattern reply \<noteq> None"
    by (auto simp: str_match_None_iff)
  then obtain m where sm: "str_match json_array_pattern reply = Some m" by auto
  from str_match_Some [OF sm] obtain i0 where i0: "i0 \<le> length reply"
    and mh: "match_here json_array_pattern (drop i0 reply) = Some (length m)"
    and m: "m = take (length m) (drop i0 reply)"
    and first: "\<forall>j<i0. match_here json_array_pattern (drop j reply) = None" by blast
  from match_here_sound [OF mh] i0 have occ0: "occurs_at json_array_pattern reply i0 (length m)"
    by (auto simp: occurs_at_def)
  have bounds: "\<forall>i' n'. occurs_at json_array_pattern reply i' n' \<longrightarrow>
              i0 \<le> i' \<and> i' + n' \<le> i0 + length m"
  proof (intro allI impI)
    fix i' n' assume occ: "occurs_at json_array_pattern reply i' n'"
    then have le: "i' + n' \<le> length reply"
      and l: "lang json_array_pattern (take n' (drop i' reply))"
      by (simp_all add: occurs_at_def)
    define q where "q = drop n' (drop i' reply)"
    have "drop i' reply = take n' (drop i' reply) @ q"
      unfolding q_def by (rule append_take_drop_id [symmetric])
    with match_here_complete [OF l, of q]
    have "match_here json_array_pattern (drop i' reply) \<noteq> None" by auto
    with first have ge: "i0 \<le> i'" by (meson not_le)
    have "drop (i' - i0) (drop i0 reply) = drop i' reply" using ge by simp
    with le l ge have "occurs_at json_array_pattern (drop i0 reply) (i' - i0) n'"
      by (simp add: occurs_at_def)
    from pattern_last_end [OF mh this] ge show "i0 \<le> i' \<and> i' + n' \<le> i0 + length m" by simp
  qed
  have "parse_reply reply =
             (case JSON_parse m of
                Some decoded \<Rightarrow> Inr decoded
              | None \<Rightarrow> Inl (Error (js ''SyntaxError'')))"
    by (simp add: parse_reply_def sm)
  with sm m occ0 bounds show ?thesis by blast
qed

theorem parse_reply_first_start_last_end_witness:
  "occurs_at json_array_pattern two_arrays 0 4 \<and>
   (\<exists>i0 m. str_match json_array_pattern two_arrays = Some m \<and>
           m = take (length m) (drop i0 two_arrays) \<and>
           occurs_at json_array_pattern two_arrays i0 (length m) \<and>
           (\<forall>i' n'. occurs_at json_array_pattern two_arrays i' n' \<longrightarrow>
              i0 \<le> i' \<and> i' + n' \<le> i0 + length m) \<and>
           parse_reply two_arrays =
             (case JSON_parse m of
                Some decoded \<Rightarrow> Inr decoded
              | None \<Rightarrow> Inl (Error (js ''SyntaxError''))))"
  by (intro conjI) (rule two_arrays_occurs, rule parse_reply_first_start_last_end [OF two_arrays_occurs])

text \<open>
  C4 as stated ("the first such substring, the first top-level array, whatever prose
  follows") fails: in a reply with two arrays the first matching substring is the first
  array, which is valid JSON, but the search selects the span from the first array to
  the end of the second, and parsing fails.
\<close>

theorem parse_reply_first_array_counterexample:
  "occurs_at json_array_pattern two_arrays 0 4 \<and>
   take 4 two_arrays = js ''[{}]'' \<and>
   JSON_parse (js ''[{}]'') = Some (JArr [JObj []]) \<and>
   str_match json_array_pattern two_arrays = Some two_arrays \<and>
   parse_reply two_arrays = Inl (Error (js ''SyntaxError''))"
  by (simp add: two_arrays_occurs)
     (simp add: two_arrays_def parse_reply_def json_array_pattern_def js_def JSON_parse_def
        is_space_def json_ws_def is_digit_def)

section \<open>Properties of the handler\<close>

lemmas example_defs = example_file_def example_request_def empty_request_def example_platform_def
  example_path_def initial_world_def replies_def refuses_def stored_world_def
  called_world_def undeletable_def

lemmas handler_defs = POST_def POST_body_def upload_def transcribe_def generate_def parse_reply_def
  respond_def mkdir_def writeFile_def unlink_def console_error_def error_response_def
  retryWithBackoff_default_def retryWithBackoff_def

lemma POST_parse_stage:
  assumes "upload pf req w = (Next (video, filePath), w1)"
      and "transcribe pf video w1 = (Next reply, w2)"
  shows "POST_body pf req w =
     (case parse_reply reply of
        Inl e \<Rightarrow>
          (Inr (error_response 500 (js ''Failed to parse transcription response'')),
           console_error (js ''Error parsing Gemini response:'') e w2)
      | Inr decoded \<Rightarrow> respond pf video filePath decoded w2)"
  using assms by (simp add: POST_body_def)

lemma POST_parse_error:
  assumes "upload pf req w = (Next (video, filePath), w1)"
      and "transcribe pf video w1 = (Next reply, w2)"
      and "parse_reply reply = Inl e"
  shows "POST pf req w =
     (Inr (error_response 500 (js ''Failed to parse transcription response'')),
      console_error (js ''Error parsing Gemini response:'') e w2)"
  using assms by (simp add: POST_def POST_parse_stage)

lemma upload_Return:
  "upload pf req w = (Return r, w') \<Longrightarrow> r = error_response 400 (js ''No video file provided'')"
  by (auto simp: upload_def Let_def split: sum.splits option.splits form_value.splits if_splits)

lemma transcribe_not_Return: "transcribe pf video w \<noteq> (Return r, w')"
  by (auto simp: transcribe_def split: prod.splits outcome.splits sum.splits)

lemma respond_array:
  "respond pf video filePath (JArr entries) w =
     (Inr \<lparr>status = 200, body = JArr (map (add_filename (file_name video)) entries)\<rparr>,
      case unlink pf filePath w of
        Inl e \<Rightarrow> console_error (js ''Error deleting temporary file:'') e w
      | Inr w1 \<Rightarrow> w1)"
  by (simp add: respond_def Let_def)

lemma respond_cases:
  "(\<exists>entries. decoded = JArr entries) \<or>
   respond pf video filePath decoded w = (Inl (Error (js ''timeline.map is not a function'')), w)"
  by (cases decoded) (simp_all add: respond_def)

lemma POST_success:
  assumes "upload pf req w = (Next (video, filePath), w1)"
      and "transcribe pf video w1 = (Next reply, w2)"
      and "parse_reply reply = Inr (JArr entries)"
  shows "POST pf req w =
     (Inr \<lparr>status = 200, body = JArr (map (add_filename (file_name video)) entries)\<rparr>,
      case unlink pf filePath w2 of
        Inl e \<Rightarrow> console_error (js ''Error deleting temporary file:'') e w2
      | Inr w3 \<Rightarrow> w3)"
  using assms by (simp add: POST_def POST_parse_stage respond_array)

lemma POST_classified:
  "\<exists>r w'. POST pf req w = (Inr r, w') \<and>
     ((status r = 200 \<and>
       (\<exists>video filePath w1 reply w2 entries.
          upload pf req w = (Next (video, filePath), w1) \<and>
          transcribe pf video w1 = (Next reply, w2) \<and>
          parse_reply reply = Inr (JArr entries) \<and>
          body r = JArr (map (add_filename (file_name video)) entries)))
      \<or> ((status r = 400 \<or> status r = 500) \<and>
          (\<exists>msg. body r = JObj [(js ''error'', JStr msg)])))"
proof (cases "upload pf req w")
  case (Pair u w1)
  show ?thesis
  proof (cases u)
    case (Throw e)
    with Pair show ?thesis
      by (simp add: POST_def POST_body_def error_response_def)
  next
    case (Return r)
    with Pair upload_Return have "r = error_response 400 (js ''No video file provided'')"
      by blast
    with Pair Return show ?thesis
      by (simp add: POST_def POST_body_def error_response_def)
  next
    case (Next vp)
    obtain video filePath where vp: "vp = (video, filePath)" by (cases vp)
    with Pair Next have up: "upload pf req w = (Next (video, filePath), w1)" by simp
    show ?thesis
    proof (cases "transcribe pf video w1")
      case (Pair t w2)
      note tr = this
      show ?thesis
      proof (cases t)
        case (Throw e)
        with up tr show ?thesis
          by (simp add: POST_def POST_body_def error_response_def)
      next
        case (Return r)
        with tr transcribe_not_Return show ?thesis by blast
      next
        case (Next reply)
        with tr have tr': "transcribe pf video w1 = (Next reply, w2)" by simp
        show ?thesis
        proof (cases "parse_reply reply")
          case (Inl e)
          from POST_parse_error [OF up tr' Inl] show ?thesis
            by (simp add: error_response_def)
        next
          case (Inr decoded)
          from respond_cases [of decoded pf video filePath w2] show ?thesis
          proof
            assume "\<exists>entries. decoded = JArr entries"
            then obtain entries where d: "decoded = JArr entries" ..
            with Inr have pr: "parse_reply reply = Inr (JArr entries)" by simp
            from POST_success [OF up tr' pr] up tr' pr show ?thesis by auto
          next
            assume "respond pf video filePath decoded w2 =
                      (Inl (Error (js ''timeline.map is not a function'')), w2)"
            with POST_parse_stage [OF up tr'] Inr show ?thesis
              by (simp add: POST_def error_response_def)
          qed
        qed
      qed
    qed
  qed
qed


lemma example_upload:
  "upload (example_platform service) example_request initial_world =
     (Next (example_file, example_path), stored_world)"
  by (simp add: example_defs upload_def mkdir_def writeFile_def js_def Let_def)

lemma example_upload_undeletable:
  "upload (undeletable (example_platform service)) example_request initial_world =
     (Next (example_file, example_path), stored_world)"
  by (simp add: example_defs upload_def mkdir_def writeFile_def js_def Let_def)

lemma example_transcribe:
  "transcribe (example_platform (replies reply)) example_file stored_world =
     (Next reply, called_world)"
  by (simp add: example_defs transcribe_def generate_def retryWithBackoff_default_def
        retryWithBackoff_def)

lemma example_transcribe_undeletable:
  "transcribe (undeletable (example_platform (replies reply))) example_file stored_world =
     (Next reply, called_world)"
  by (simp add: example_defs transcribe_def generate_def retryWithBackoff_default_def
        retryWithBackoff_def)

lemma parse_reply_example: "parse_reply (js ''[{}]'') = Inr (JArr [JObj []])"
  by (simp add: parse_reply_def json_array_pattern_def js_def JSON_parse_def is_space_def
        json_ws_def)


text \<open>
  C1 fails on the code. The scratch file is deleted on the success path only (lines
  156-161): when the reply cannot be parsed the handler returns at line 144, and when the
  model call fails the exception goes to line 164; in both cases the response is a 500
  and the scratch file is still on disk.
\<close>

theorem POST_failure_leaves_scratch_file:
  "fst (POST (example_platform (replies (js ''no transcript''))) example_request initial_world) =
     Inr (error_response 500 (js ''Failed to parse transcription response'')) \<and>
   files (snd (POST (example_platform (replies (js ''no transcript''))) example_request
                 initial_world)) example_path = Some [0, 1, 2] \<and>
   fst (POST (example_platform refuses) example_request initial_world) =
     Inr (error_response 500 (js ''[403 Forbidden] API key not valid'')) \<and>
   files (snd (POST (example_platform refuses) example_request initial_world)) example_path =
     Some [0, 1, 2]"
  by (simp add: example_defs handler_defs json_array_pattern_def js_def Let_def)

text \<open>
  C5. When the reply of the model has no occurrence of the array pattern, or the
  substring that the search selects is not valid JSON, parsing fails and the endpoint
  answers 500 with the payload of line 145.
\<close>

theorem POST_parse_failure_500:
  assumes "upload pf req w = (Next (video, filePath), w1)"
      and "transcribe pf video w1 = (Next reply, w2)"
      and "(\<forall>i n. \<not> occurs_at json_array_pattern reply i n) \<or>
           (\<exists>m. str_match json_array_pattern reply = Some m \<and> JSON_parse m = None)"
  shows "(\<exists>e. parse_reply reply = Inl e) \<and>
         fst (POST pf req w) =
           Inr (error_response 500 (js ''Failed to parse transcription response''))"
proof -
  from assms(3) have "\<exists>e. parse_reply reply = Inl e"
    by (auto simp: parse_reply_def str_match_None_iff [symmetric])
  then obtain e where e: "parse_reply reply = Inl e" ..
  from POST_parse_error [OF assms(1,2) e] e show ?thesis by simp
qed

theorem POST_parse_failure_500_witness:
  "upload (example_platform (replies (js ''no transcript''))) example_request initial_world =
     (Next (example_file, example_path), stored_world) \<and>
   transcribe (example_platform (replies (js ''no transcript''))) example_file stored_world =
     (Next (js ''no transcript''), called_world) \<and>
   (\<forall>i n. \<not> occurs_at json_array_pattern (js ''no transcript'') i n) \<and>
   fst (POST (example_platform (replies (js ''no transcript''))) example_request initial_world) =
     Inr (error_response 500 (js ''Failed to parse transcription response''))"
proof -
  have "str_match json_array_pattern (js ''no transcript'') = None"
    by (simp add: js_def json_array_pattern_def)
  then have no: "\<forall>i n. \<not> occurs_at json_array_pattern (js ''no transcript'') i n"
    by (simp add: str_match_None_iff)
  then have d: "(\<forall>i n. \<not> occurs_at json_array_pattern (js ''no transcript'') i n) \<or>
     (\<exists>m. str_match json_array_pattern (js ''no transcript'') = Some m \<and> JSON_parse m = None)"
    by (rule disjI1)
  show ?thesis
    using POST_parse_failure_500 [OF example_upload example_transcribe d] no
      example_upload example_transcribe
    by simp
qed



text \<open>
  C7. When the form has no \<open>video\<close> field, the endpoint answers 400 with the error
  "No video file provided" and leaves the world as it was: no scratch file is written
  and the model service is not called.
\<close>

theorem POST_no_video_400:
  assumes "formData req = Inr form" and "map_of form (js ''video'') = None"
  shows "POST pf req w = (Inr (error_response 400 (js ''No video file provided'')), w)"
  using assms by (simp add: POST_def POST_body_def upload_def)

theorem POST_no_video_400_witness:
  "formData empty_request = Inr [(js ''audio'', StringValue (js ''none''))] \<and>
   map_of [(js ''audio'', StringValue (js ''none''))] (js ''video'') = None \<and>
   POST (example_platform refuses) empty_request initial_world =
     (Inr (error_response 400 (js ''No video file provided'')), initial_world)"
proof -
  have a: "formData empty_request = Inr [(js ''audio'', StringValue (js ''none''))]"
    by (simp add: empty_request_def)
  have b: "map_of [(js ''audio'', StringValue (js ''none''))] (js ''video'') = None"
    by (simp add: js_def)
  show ?thesis
    using a b POST_no_video_400 [OF a b, of "example_platform refuses" initial_world] by simp
qed

text \<open>
  C8, as the code has it. The handler always returns a response and never lets an
  exception out. The response is a 200 only when the upload, the model call and the
  parsing have all succeeded; every failure of one of them gives an error payload with
  status 400 or 500. A failure of the cleanup is caught and logged, and the response is
  still the 200 with the entries.
\<close>

theorem POST_never_throws:
  "(\<exists>r w'. POST pf req w = (Inr r, w') \<and>
     ((status r = 200 \<and>
       (\<exists>video filePath w1 reply w2 entries.
          upload pf req w = (Next (video, filePath), w1) \<and>
          transcribe pf video w1 = (Next reply, w2) \<and>
          parse_reply reply = Inr (JArr entries) \<and>
          body r = JArr (map (add_filename (file_name video)) entries)))
      \<or> ((status r = 400 \<or> status r = 500) \<and>
          (\<exists>msg. body r = JObj [(js ''error'', JStr msg)])))) \<and>
   (\<forall>video filePath w1 reply w2 entries e.
      upload pf req w = (Next (video, filePath), w1) \<and>
      transcribe pf video w1 = (Next reply, w2) \<and>
      parse_reply reply = Inr (JArr entries) \<and>
      unlink pf filePath w2 = Inl e \<longrightarrow>
      POST pf req w =
        (Inr \<lparr>status = 200, body = JArr (map (add_filename (file_name video)) entries)\<rparr>,
         console_error (js ''Error deleting temporary file:'') e w2))"
proof (intro conjI allI impI)
  show "\<exists>r w'. POST pf req w = (Inr r, w') \<and>
     ((status r = 200 \<and>
       (\<exists>video filePath w1 reply w2 entries.
          upload pf req w = (Next (video, filePath), w1) \<and>
          transcribe pf video w1 = (Next reply, w2) \<and>
          parse_reply reply = Inr (JArr entries) \<and>
          body r = JArr (map (add_filename (file_name video)) entries)))
      \<or> ((status r = 400 \<or> status r = 500) \<and>
          (\<exists>msg. body r = JObj [(js ''error'', JStr msg)])))"
    by (rule POST_classified)
next
  fix video filePath w1 reply w2 entries e
  assume h: "upload pf req w = (Next (video, filePath), w1) \<and>
      transcribe pf video w1 = (Next reply, w2) \<and>
      parse_reply reply = Inr (JArr entries) \<and>
      unlink pf filePath w2 = Inl e"
  then have "upload pf req w = (Next (video, filePath), w1)"
    "transcribe pf video w1 = (Next reply, w2)" "parse_reply reply = Inr (JArr entries)"
    "unlink pf filePath w2 = Inl e" by simp_all
  from POST_success [OF this(1,2,3)] this(4)
  show "POST pf req w =
        (Inr \<lparr>status = 200, body = JArr (map (add_filename (file_name video)) entries)\<rparr>,
         console_error (js ''Error deleting temporary file:'') e w2)"
    by simp
qed

theorem POST_never_throws_witness:
  "upload (undeletable (example_platform (replies (js ''[{}]'')))) example_request initial_world =
     (Next (example_file, example_path), stored_world) \<and>
   transcribe (undeletable (example_platform (replies (js ''[{}]'')))) example_file stored_world =
     (Next (js ''[{}]''), called_world) \<and>
   parse_reply (js ''[{}]'') = Inr (JArr [JObj []]) \<and>
   unlink (undeletable (example_platform (replies (js ''[{}]'')))) example_path called_world =
     Inl (Error (js ''EPERM: operation not permitted'')) \<and>
   POST (undeletable (example_platform (replies (js ''[{}]'')))) example_request initial_world =
     (Inr \<lparr>status = 200,
           body = JArr (map (add_filename (file_name example_file)) [JObj []])\<rparr>,
      console_error (js ''Error deleting temporary file:'')
        (Error (js ''EPERM: operation not permitted'')) called_world)"
proof -
  let ?pf = "undeletable (example_platform (replies (js ''[{}]'')))"
  have u: "unlink ?pf example_path called_world = Inl (Error (js ''EPERM: operation not permitted''))"
    by (simp add: unlink_def undeletable_def example_platform_def)
  have all: "upload ?pf example_request initial_world =
       (Next (example_file, example_path), stored_world) \<and>
     transcribe ?pf example_file stored_world = (Next (js ''[{}]''), called_world) \<and>
     parse_reply (js ''[{}]'') = Inr (JArr [JObj []]) \<and>
     unlink ?pf example_path called_world = Inl (Error (js ''EPERM: operation not permitted''))"
    using example_upload_undeletable example_transcribe_undeletable parse_reply_example u
    by simp
  from POST_never_throws [of ?pf example_request initial_world, THEN conjunct2, rule_format, OF all]
  show ?thesis using all by simp
qed

text \<open>
  C8 as stated ("a cleanup failure is converted into a response with an error payload")
  fails: when \<open>unlink\<close> throws, the response is the success payload.
\<close>

theorem POST_cleanup_failure_counterexample:
  "unlink (undeletable (example_platform (replies (js ''[{}]'')))) example_path called_world =
     Inl (Error (js ''EPERM: operation not permitted'')) \<and>
   fst (POST (undeletable (example_platform (replies (js ''[{}]'')))) example_request
          initial_world) =
     Inr \<lparr>status = 200, body = JArr [JObj [(js ''filename'', JStr (js ''clip.mp4''))]]\<rparr>"
proof -
  have "POST_body (undeletable (example_platform (replies (js ''[{}]'')))) example_request
          initial_world =
        respond (undeletable (example_platform (replies (js ''[{}]'')))) example_file
          example_path (JArr [JObj []]) called_world"
    using POST_parse_stage [OF example_upload_undeletable example_transcribe_undeletable]
    by (simp add: parse_reply_example)
  then show ?thesis
    by (simp add: POST_def respond_def unlink_def undeletable_def example_platform_def
          add_filename_def example_file_def Let_def)
qed

text \<open>
  C10. When the only opening bracket of the reply is the one of an empty array \<open>[]\<close>,
  the pattern search finds nothing, parsing fails with the error of line 140 and the
  endpoint answers 500.
\<close>

theorem POST_empty_array_500:
  assumes "upload pf req w = (Next (video, filePath), w1)"
      and "transcribe pf video w1 = (Next reply, w2)"
      and "reply = pre @ js ''[]'' @ post"
      and "0x5B \<notin> set pre" and "0x5B \<notin> set post"
  shows "parse_reply reply = Inl (Error (js ''No valid JSON found in response'')) \<and>
         fst (POST pf req w) =
           Inr (error_response 500 (js ''Failed to parse transcription response''))"
proof -
  have e: "parse_reply reply = Inl (Error (js ''No valid JSON found in response''))"
    using empty_array_no_match [OF assms(4,5)] assms(3) by (simp add: parse_reply_def)
  from POST_parse_error [OF assms(1,2) e] e show ?thesis by simp
qed

theorem POST_empty_array_500_witness:
  "upload (example_platform (replies (js ''[]''))) example_request initial_world =
     (Next (example_file, example_path), stored_world) \<and>
   transcribe (example_platform (replies (js ''[]''))) example_file stored_world =
     (Next (js ''[]''), called_world) \<and>
   js ''[]'' = [] @ js ''[]'' @ [] \<and> 0x5B \<notin> set ([] :: jstring) \<and>
   fst (POST (example_platform (replies (js ''[]''))) example_request initial_world) =
     Inr (error_response 500 (js ''Failed to parse transcription response''))"
proof -
  have a: "js ''[]'' = [] @ js ''[]'' @ []" by simp
  have b: "0x5B \<notin> set ([] :: jstring)" by simp
  show ?thesis
    using POST_empty_array_500 [OF example_upload example_transcribe a b b]
      example_upload example_transcribe
    by simp
qed

section \<open>The export encoding\<close>

subsection \<open>String literals\<close>








lemma length_unicode_escape [simp]: "length (unicode_escape c) = 6"
  by (simp add: unicode_escape_def)





subsection \<open>The tokens of the written text\<close>


lemma map_option_append:
  "map_option ((@) a) (map_option ((@) b) m) = map_option ((@) (a @ b)) m"
  by (cases m) simp_all

lemma map_option_Cons_append:
  "map_option (Cons t) (map_option ((@) b) m) = map_option ((@) (t # b)) m"
  by (cases m) simp_all







subsection \<open>Reading the tokens back\<close>







lemma plain_entry_json: "plain (entry_json e)"
  by (simp add: entry_json_def js_def)



end
